theory Spec2Isabelle
  imports Complex_Main
begin

section \<open>The carousel generator of main.py\<close>

text \<open>
  A shallow embedding of \<^verbatim>\<open>src/main.py\<close>. Python strings are \<open>string\<close>, the slide
  index and the day ordinal are unbounded integers, a raised exception is the \<open>Inl\<close> of
  a sum, and everything the script does to its surroundings (directories, image files,
  archives, the log, SMTP sessions) is a field of the record \<open>world\<close> that every
  effectful function takes and returns. What the script calls in Pillow, textwrap, os
  and shutil is not its own code: the answers of those libraries that the script depends
  on are the fields of the record \<open>env\<close>.
\<close>

subsection \<open>Python values\<close>

type_synonym path = string

datatype py_error =
    FileNotFoundError string
  | JSONDecodeError string
  | ZeroDivisionError
  | IndexError
  | EnvironmentError string
  | SMTPException string
  | UnicodeEncodeError

text \<open>\<^verbatim>\<open>str(i)\<close> of a non-negative integer, as the f-strings format the slide index.\<close>

definition digit_char :: "nat \<Rightarrow> char" where
  "digit_char d = ''0123456789'' ! d"

fun str_nat :: "nat \<Rightarrow> string" where
  "str_nat n = (if n < 10 then [digit_char n] else str_nat (n div 10) @ [digit_char (n mod 10)])"

declare str_nat.simps [simp del]

text \<open>\<^verbatim>\<open>sep.join(xs)\<close>.\<close>

fun join :: "string \<Rightarrow> string list \<Rightarrow> string" where
  "join sep [] = []"
| "join sep [x] = x"
| "join sep (x # y # ys) = x @ sep @ join sep (y # ys)"

text \<open>\<^verbatim>\<open>os.path.join(a, b)\<close> of posixpath, for two components.\<close>

definition path_join :: "path \<Rightarrow> path \<Rightarrow> path" where
  "path_join a b =
     (if b \<noteq> [] \<and> hd b = CHR ''/'' then b
      else if a = [] \<or> last a = CHR ''/'' then a @ b
      else a @ ''/'' @ b)"

text \<open>
  \<^verbatim>\<open>a % b\<close> on integers: Python raises on a zero divisor and otherwise takes the sign of
  the divisor, which is what \<open>mod\<close> on \<open>int\<close> does.
\<close>

definition py_mod :: "int \<Rightarrow> int \<Rightarrow> py_error + int" where
  "py_mod a b = (if b = 0 then Inl ZeroDivisionError else Inr (a mod b))"

text \<open>
  \<^verbatim>\<open>xs[i]\<close> on a list of length \<open>n\<close>: positions \<open>0\<close> to \<open>n - 1\<close> from the front,
  \<open>-1\<close> down to \<open>-n\<close> from the back, \<^verbatim>\<open>IndexError\<close> outside.
\<close>

definition py_index :: "'a list \<Rightarrow> int \<Rightarrow> py_error + 'a" where
  "py_index xs i =
     (if 0 \<le> i \<and> i < int (length xs) then Inr (xs ! nat i)
      else if i < 0 \<and> - int (length xs) \<le> i then Inr (xs ! nat (int (length xs) + i))
      else Inl IndexError)"

subsection \<open>Constants\<close>

definition OUT_BASE :: path where
  "OUT_BASE = ''output''"

definition SLIDE_SIZE :: "int \<times> int" where
  "SLIDE_SIZE = (1080, 1080)"

datatype palette_key = bg | muted | cream | accent | dark

fun PALETTE :: "palette_key \<Rightarrow> string" where
  "PALETTE bg = ''#0F4C5C''"
| "PALETTE muted = ''#A7D7C5''"
| "PALETTE cream = ''#F7F6F2''"
| "PALETTE accent = ''#F5B041''"
| "PALETTE dark = ''#092A2F''"

subsection \<open>Topics\<close>

text \<open>
  A topic is a JSON object; the script reads five of its keys, each with
  \<^verbatim>\<open>topic.get(key, default)\<close>. A field is \<open>None\<close> when the key is absent.
\<close>

record topic =
  title :: "string option"
  slides :: "string list option"
  short_caption :: "string option"
  long_caption :: "string option"
  hashtags :: "string list option"

text \<open>\<^verbatim>\<open>d.get(key, default)\<close>.\<close>

definition get_default :: "'a option \<Rightarrow> 'a \<Rightarrow> 'a" where
  "get_default field d = (case field of None \<Rightarrow> d | Some v \<Rightarrow> v)"

subsection \<open>Fonts\<close>

datatype font = FreeTypeFont path int | DefaultFont

text \<open>
  The library and operating system answers the script depends on:
  \<^verbatim>\<open>os.path.exists\<close> on a font path, whether \<^verbatim>\<open>ImageFont.truetype\<close> returns or raises,
  the two text measurements of \<^verbatim>\<open>ImageDraw\<close>, \<^verbatim>\<open>textwrap.fill\<close>, and the file name
  \<^verbatim>\<open>shutil.make_archive\<close> returns for a base name.
\<close>

record env =
  path_exists :: "path \<Rightarrow> bool"
  truetype_loads :: "path \<Rightarrow> int \<Rightarrow> bool"
  textsize :: "string \<Rightarrow> font \<Rightarrow> int \<times> int"
  multiline_textsize :: "string \<Rightarrow> font \<Rightarrow> int \<Rightarrow> int \<times> int"
  fill :: "string \<Rightarrow> nat \<Rightarrow> string"
  archive_name :: "path \<Rightarrow> string \<Rightarrow> path"

definition candidates :: "path list" where
  "candidates =
     [''/usr/share/fonts/truetype/dejavu/DejaVuSans-Bold.ttf'',
      ''/usr/share/fonts/truetype/dejavu/DejaVuSans.ttf'',
      ''/usr/share/fonts/truetype/liberation/LiberationSans-Regular.ttf'',
      ''C:'' @ [CHR 0x5C] @ ''Windows'' @ [CHR 0x5C] @ ''Fonts'' @ [CHR 0x5C] @ ''Arial.ttf'']"

text \<open>
  \<^verbatim>\<open>ImageFont.truetype(p, size=size)\<close> inside \<^verbatim>\<open>try\<close>: the font, or the exception
  that \<^verbatim>\<open>except Exception\<close> catches.
\<close>

definition truetype :: "env \<Rightarrow> path \<Rightarrow> int \<Rightarrow> font option" where
  "truetype e p sz = (if truetype_loads e p sz then Some (FreeTypeFont p sz) else None)"

text \<open>The \<^verbatim>\<open>for p in candidates\<close> loop of \<^verbatim>\<open>find_font\<close> and the fallback after it.\<close>

fun find_font_loop :: "env \<Rightarrow> int \<Rightarrow> path list \<Rightarrow> font" where
  "find_font_loop e sz [] = DefaultFont"
| "find_font_loop e sz (p # ps) =
     (if path_exists e p then
        (case truetype e p sz of
           Some f \<Rightarrow> f
         | None \<Rightarrow> find_font_loop e sz ps)
      else find_font_loop e sz ps)"

definition find_font :: "env \<Rightarrow> int \<Rightarrow> font" where
  "find_font e sz = find_font_loop e sz candidates"

subsection \<open>Captions\<close>

definition newline :: string where
  "newline = [CHR 0x0A]"

definition compose_captions :: "topic \<Rightarrow> string \<times> string" where
  "compose_captions t =
     (let li = get_default (title t) '''' @ newline @ newline
                 @ get_default (long_caption t) '''' @ newline @ newline
                 @ join '' '' (get_default (hashtags t) []);
          insta = get_default (short_caption t) (get_default (title t) '''') @ newline @ newline
                 @ join '' '' (get_default (hashtags t) [])
      in (li, insta))"

subsection \<open>Images and the slide renderer\<close>

text \<open>
  A Pillow image is its mode, its size, the colour it was created with and the drawing
  calls made on it, in order. Coordinates computed with \<^verbatim>\<open>/\<close> are Python floats that
  are halves of integers, hence exact rationals.
\<close>

datatype draw_op =
    Rectangle "int list" string
  | MultilineText "rat \<times> rat" string font string string int
  | Text "rat \<times> rat" string font string

record image =
  im_mode :: string
  im_size :: "int \<times> int"
  im_color :: string
  im_ops :: "draw_op list"

text \<open>The footer bullet is U+2022, three bytes in UTF-8.\<close>

definition bullet :: string where
  "bullet = [CHR 0xE2, CHR 0x80, CHR 0xA2]"

text \<open>
  The font of \<^verbatim>\<open>ImageFont.load_default()\<close> is a bitmap font: measuring or drawing with it
  encodes the text as Latin-1 and raises \<^verbatim>\<open>UnicodeEncodeError\<close> on any other character.
  Strings here are UTF-8, where a character beyond U+00FF is one whose first byte is C4 or
  above. A font loaded by \<^verbatim>\<open>ImageFont.truetype\<close> takes any text.
\<close>

definition latin1 :: "string \<Rightarrow> bool" where
  "latin1 s = list_all (\<lambda>c. (of_char c :: nat) < 0xC4) s"

fun font_encodes :: "font \<Rightarrow> string \<Rightarrow> bool" where
  "font_encodes DefaultFont s = latin1 s"
| "font_encodes (FreeTypeFont p sz) s = True"

text \<open>
  The calls on \<^verbatim>\<open>ImageDraw\<close>, each taking the drawing calls made so far and returning
  them extended, or the exception.
\<close>

definition draw_rectangle :: "draw_op list \<Rightarrow> int list \<Rightarrow> string \<Rightarrow> draw_op list" where
  "draw_rectangle ops box colour = ops @ [Rectangle box colour]"

definition draw_textsize :: "env \<Rightarrow> string \<Rightarrow> font \<Rightarrow> py_error + int \<times> int" where
  "draw_textsize e s f = (if font_encodes f s then Inr (textsize e s f) else Inl UnicodeEncodeError)"

definition draw_multiline_textsize :: "env \<Rightarrow> string \<Rightarrow> font \<Rightarrow> int \<Rightarrow> py_error + int \<times> int" where
  "draw_multiline_textsize e s f spacing =
     (if font_encodes f s then Inr (multiline_textsize e s f spacing) else Inl UnicodeEncodeError)"

definition draw_text ::
  "draw_op list \<Rightarrow> rat \<times> rat \<Rightarrow> string \<Rightarrow> font \<Rightarrow> string \<Rightarrow> py_error + draw_op list" where
  "draw_text ops xy s f colour =
     (if font_encodes f s then Inr (ops @ [Text xy s f colour]) else Inl UnicodeEncodeError)"

definition draw_multiline_text ::
  "draw_op list \<Rightarrow> rat \<times> rat \<Rightarrow> string \<Rightarrow> font \<Rightarrow> string \<Rightarrow> string \<Rightarrow> int
     \<Rightarrow> py_error + draw_op list" where
  "draw_multiline_text ops xy s f colour align spacing =
     (if font_encodes f s then Inr (ops @ [MultilineText xy s f colour align spacing])
      else Inl UnicodeEncodeError)"

text \<open>
  The \<^verbatim>\<open>if cta:\<close> block, lines 61 to 65.
\<close>

definition draw_cta :: "env \<Rightarrow> draw_op list \<Rightarrow> string \<Rightarrow> font \<Rightarrow> py_error + draw_op list" where
  "draw_cta e ops cta cta_font =
     (let (W, H) = SLIDE_SIZE; padding = 60
      in if cta \<noteq> [] then
           (case draw_textsize e cta cta_font of
              Inl err \<Rightarrow> Inl err
            | Inr (cta_w, cta_h) \<Rightarrow>
                (let cta_box = [W - padding - cta_w - 30, H - 120 - 10, W - padding,
                                H - 120 + cta_h + 10];
                     ops' = draw_rectangle ops cta_box (PALETTE accent)
                 in draw_text ops' (of_int (cta_box ! 0 + 12), of_int (cta_box ! 1 + 6)) cta cta_font
                      (PALETTE dark)))
         else Inr ops)"

text \<open>
  Lines 67 to 69: the footer, and with it the image as it is when \<^verbatim>\<open>img.save\<close> is
  called.
\<close>

definition draw_footer :: "env \<Rightarrow> draw_op list \<Rightarrow> nat \<Rightarrow> font \<Rightarrow> py_error + image" where
  "draw_footer e ops slide_num small_font =
     (let (W, H) = SLIDE_SIZE;
          footer = ''AI for MSMEs '' @ bullet @ '' Slide '' @ str_nat slide_num
      in case draw_textsize e footer small_font of
           Inl err \<Rightarrow> Inl err
         | Inr (fw, fh) \<Rightarrow>
             (case draw_text ops ((of_int W - of_int fw) / 2, of_int (H - 40)) footer small_font
                     (PALETTE muted) of
                Inl err \<Rightarrow> Inl err
              | Inr ops' \<Rightarrow>
                  Inr \<lparr>im_mode = ''RGB'', im_size = (W, H), im_color = PALETTE bg, im_ops = ops'\<rparr>))"

text \<open>
  Lines 40 to 69 of \<^verbatim>\<open>render_slide\<close>: the image handed to \<^verbatim>\<open>img.save\<close>, or the
  exception of the first text call that raises.
\<close>

definition slide_image :: "env \<Rightarrow> string \<Rightarrow> string \<Rightarrow> string \<Rightarrow> nat \<Rightarrow> py_error + image" where
  "slide_image e ttl body cta slide_num =
     (let (W, H) = SLIDE_SIZE;
          title_font = find_font e 56;
          body_font = find_font e 30;
          cta_font = find_font e 26;
          small_font = find_font e 18;
          padding = 60;
          header_h = 160;
          ops1 = draw_rectangle [] [0, 0, W, header_h] (PALETTE muted);
          title_wrapped = fill e ttl 20
      in case draw_multiline_textsize e title_wrapped title_font 6 of
           Inl err \<Rightarrow> Inl err
         | Inr (w, h) \<Rightarrow>
             (case draw_multiline_text ops1 ((of_int W - of_int w) / 2, 28) title_wrapped title_font
                     (PALETTE dark) ''center'' 6 of
                Inl err \<Rightarrow> Inl err
              | Inr ops2 \<Rightarrow>
                  (let body_y = header_h + 30;
                       body_box = [padding, body_y, W - padding, H - 160];
                       ops3 = draw_rectangle ops2 body_box (PALETTE cream);
                       body_wrapped = fill e body 40
                   in case draw_multiline_text ops3
                             (of_int (body_box ! 0 + 24), of_int (body_box ! 1 + 24)) body_wrapped
                             body_font (PALETTE dark) ''left'' 6 of
                        Inl err \<Rightarrow> Inl err
                      | Inr ops4 \<Rightarrow>
                          (case draw_cta e ops4 cta cta_font of
                             Inl err \<Rightarrow> Inl err
                           | Inr ops5 \<Rightarrow> draw_footer e ops5 slide_num small_font))))"

text \<open>An environment in which a candidate font loads at each of the four sizes used.\<close>

definition fonts_load :: "env \<Rightarrow> bool" where
  "fonts_load e =
     (find_font e 56 \<noteq> DefaultFont \<and> find_font e 30 \<noteq> DefaultFont
      \<and> find_font e 26 \<noteq> DefaultFont \<and> find_font e 18 \<noteq> DefaultFont)"

text \<open>
  The drawing calls of the CTA badge, recognised in a finished image: its rectangle is the
  only one filled with the accent colour, its caption the only single-line text in the
  dark colour.
\<close>

fun is_cta_op :: "draw_op \<Rightarrow> bool" where
  "is_cta_op (Rectangle box c) = (c = PALETTE accent)"
| "is_cta_op (MultilineText xy s f c a sp) = False"
| "is_cta_op (Text xy s f c) = (c = PALETTE dark)"

definition cta_ops_of :: "image \<Rightarrow> draw_op list" where
  "cta_ops_of img = filter is_cta_op (im_ops img)"

subsection \<open>The world the script acts on\<close>

datatype topics_file = Missing | Malformed string | Parsed "topic list"

record pydate =
  toordinal :: int
  isoformat :: string

datatype log_record = LogInfo string | LogError string | LogFailed py_error

record email =
  e_from :: string
  e_to :: string
  e_subject :: string
  e_content :: string
  e_attachments :: "(string \<times> image) list"

datatype smtp_event = Connect string nat | Login string string | Send email

record archive =
  arc_format :: string
  arc_root :: path
  arc_members :: "path \<Rightarrow> image option"

text \<open>
  \<open>topics_json\<close> is what is at \<^verbatim>\<open>topics.json\<close>, \<open>today\<close> what
  \<^verbatim>\<open>datetime.date.today()\<close> answers during the run, \<open>smtp_fault\<close> the exception the
  mail server's session ends with, if any.
\<close>

record world =
  topics_json :: topics_file
  today :: pydate
  environ :: "string \<Rightarrow> string option"
  dirs :: "path set"
  files :: "path \<Rightarrow> image option"
  archives :: "path \<Rightarrow> archive option"
  smtp_fault :: "py_error option"
  smtp_log :: "smtp_event list"
  log :: "log_record list"

definition logging :: "log_record \<Rightarrow> world \<Rightarrow> world" where
  "logging r w = w\<lparr>log := log w @ [r]\<rparr>"

text \<open>\<^verbatim>\<open>os.makedirs(p, exist_ok=True)\<close>: the directory and every missing ancestor.\<close>

fun dir_prefixes :: "path \<Rightarrow> path \<Rightarrow> path list" where
  "dir_prefixes acc [] = [acc]"
| "dir_prefixes acc (c # cs) =
     (if c = CHR ''/'' then acc # dir_prefixes (acc @ [c]) cs
      else dir_prefixes (acc @ [c]) cs)"

definition makedirs :: "path \<Rightarrow> world \<Rightarrow> world" where
  "makedirs p w = w\<lparr>dirs := dirs w \<union> set (filter (\<lambda>q. q \<noteq> []) (dir_prefixes [] p))\<rparr>"

text \<open>\<^verbatim>\<open>img.save(out_path)\<close>.\<close>

definition save :: "image \<Rightarrow> path \<Rightarrow> world \<Rightarrow> world" where
  "save img out_path w = w\<lparr>files := (files w)(out_path \<mapsto> img)\<rparr>"

text \<open>
  \<^verbatim>\<open>render_slide\<close>: what raises while drawing leaves the world as it is, since
  \<^verbatim>\<open>img.save\<close> is the last statement.
\<close>

definition render_slide ::
  "env \<Rightarrow> string \<Rightarrow> string \<Rightarrow> string \<Rightarrow> nat \<Rightarrow> path \<Rightarrow> world
     \<Rightarrow> (py_error + unit) \<times> world" where
  "render_slide e ttl body cta slide_num out_path w =
     (case slide_image e ttl body cta slide_num of
        Inl err \<Rightarrow> (Inl err, w)
      | Inr img \<Rightarrow> (Inr (), save img out_path w))"

text \<open>
  \<^verbatim>\<open>shutil.make_archive(base, format, root_dir)\<close>: an archive of what is under
  \<open>root_dir\<close>, at the file name the library returns.
\<close>

definition under :: "path \<Rightarrow> path \<Rightarrow> bool" where
  "under root_dir p = (take (length root_dir + 1) p = root_dir @ ''/'')"

definition make_archive :: "env \<Rightarrow> path \<Rightarrow> string \<Rightarrow> path \<Rightarrow> world \<Rightarrow> path \<times> world" where
  "make_archive e base fmt root_dir w =
     (let name = archive_name e base fmt;
          a = \<lparr>arc_format = fmt, arc_root = root_dir,
               arc_members = (\<lambda>p. if under root_dir p then files w p else None)\<rparr>
      in (name, w\<lparr>archives := (archives w)(name \<mapsto> a)\<rparr>))"

subsection \<open>The carousel generator\<close>

definition cta_text :: string where
  "cta_text = ''Email for template: arunksurana@gmail.com''"

text \<open>
  The body of the \<^verbatim>\<open>for i, s in enumerate(slides, start=1)\<close> loop, on the pairs still
  to be visited; \<open>n\<close> is \<^verbatim>\<open>len(slides)\<close>, the state is the world and \<^verbatim>\<open>files\<close>. An
  exception of \<^verbatim>\<open>render_slide\<close> ends the loop; the slides written before it stay.
\<close>

fun carousel_loop ::
  "env \<Rightarrow> topic \<Rightarrow> path \<Rightarrow> nat \<Rightarrow> (nat \<times> string) list \<Rightarrow> world \<Rightarrow> path list
     \<Rightarrow> (py_error + path list) \<times> world" where
  "carousel_loop e t outdir n [] w fs = (Inr fs, w)"
| "carousel_loop e t outdir n (x # rest) w fs =
     (let i = fst x; s = snd x;
          ttl = (if i = 1 then get_default (title t) ''AI for MSMEs'' else ''Slide '' @ str_nat i);
          body = s;
          cta = (if i = n then cta_text else []);
          out_path = path_join outdir (''slide_'' @ str_nat i @ ''.png'')
      in case render_slide e ttl body cta i out_path w of
           (Inl err, w') \<Rightarrow> (Inl err, w')
         | (Inr u, w') \<Rightarrow> carousel_loop e t outdir n rest w' (fs @ [out_path]))"

definition generate_carousel ::
  "env \<Rightarrow> topic \<Rightarrow> world \<Rightarrow> (py_error + path \<times> path list \<times> path) \<times> world" where
  "generate_carousel e t w =
     (let today_s = isoformat (today w);
          outdir = path_join OUT_BASE (''carousel_'' @ today_s);
          w1 = makedirs outdir w;
          sl = get_default (slides t) []
      in case carousel_loop e t outdir (length sl) (enumerate 1 sl) w1 [] of
           (Inl err, w2) \<Rightarrow> (Inl err, w2)
         | (Inr fs, w2) \<Rightarrow>
             (let zip_base = path_join OUT_BASE (''carousel_'' @ today_s);
                  (zip_path, w3) = make_archive e zip_base ''zip'' outdir w2
              in (Inr (outdir, fs, zip_path), w3)))"

subsection \<open>Loading topics, sending mail, the main program\<close>

definition load_topics :: "world \<Rightarrow> (py_error + topic list) \<times> world" where
  "load_topics w =
     (case topics_json w of
        Missing \<Rightarrow>
          (Inl (FileNotFoundError ''topics.json missing.''),
           logging (LogError ''topics.json missing in repo root. Create it and commit.'') w)
      | Malformed m \<Rightarrow>
          (Inl (JSONDecodeError m), logging (LogError (''topics.json is not valid JSON: '' @ m)) w)
      | Parsed ts \<Rightarrow> (Inr ts, w))"

text \<open>\<^verbatim>\<open>os.path.basename\<close>: what follows the last slash.\<close>

definition basename :: "path \<Rightarrow> string" where
  "basename p = rev (takeWhile (\<lambda>c. c \<noteq> CHR ''/'') (rev p))"

text \<open>The attachment loop of \<^verbatim>\<open>send_email\<close>: \<^verbatim>\<open>open\<close> raises on a path that is not there.\<close>

fun read_attachments :: "world \<Rightarrow> path list \<Rightarrow> py_error + (string \<times> image) list" where
  "read_attachments w [] = Inr []"
| "read_attachments w (p # ps) =
     (case files w p of
        None \<Rightarrow> Inl (FileNotFoundError p)
      | Some data \<Rightarrow>
          (case read_attachments w ps of
             Inl err \<Rightarrow> Inl err
           | Inr rest \<Rightarrow> Inr ((basename p, data) # rest)))"

definition send_email ::
  "string \<Rightarrow> string \<Rightarrow> string \<Rightarrow> string \<Rightarrow> string \<Rightarrow> path list \<Rightarrow> world
     \<Rightarrow> (py_error + unit) \<times> world" where
  "send_email user app_password recipient subject body_text attachments w =
     (case read_attachments w attachments of
        Inl err \<Rightarrow> (Inl err, w)
      | Inr atts \<Rightarrow>
          (let msg = \<lparr>e_from = user, e_to = recipient, e_subject = subject,
                      e_content = body_text, e_attachments = atts\<rparr>;
               w1 = w\<lparr>smtp_log := smtp_log w @ [Connect ''smtp.gmail.com'' 465]\<rparr>
           in case smtp_fault w of
                Some err \<Rightarrow> (Inl err, w1)
              | None \<Rightarrow>
                  (Inr (), w1\<lparr>smtp_log := smtp_log w1 @ [Login user app_password, Send msg]\<rparr>)))"

text \<open>Truth value of what \<^verbatim>\<open>os.environ.get\<close> returns: \<^verbatim>\<open>None\<close> and the empty string are false.\<close>

definition truthy :: "string option \<Rightarrow> bool" where
  "truthy v = (case v of None \<Rightarrow> False | Some s \<Rightarrow> s \<noteq> [])"

text \<open>Lines 123 and 124: the index of the day and the topic at it.\<close>

definition select_topic :: "pydate \<Rightarrow> topic list \<Rightarrow> py_error + (int \<times> topic)" where
  "select_topic d topics =
     (case py_mod (toordinal d) (int (length topics)) of
        Inl err \<Rightarrow> Inl err
      | Inr idx \<Rightarrow>
          (case py_index topics idx of
             Inl err \<Rightarrow> Inl err
           | Inr t \<Rightarrow> Inr (idx, t)))"

text \<open>Lines 131 to 141: the email step, entered when \<^verbatim>\<open>send_email_flag\<close> is set.\<close>

definition email_step :: "topic \<Rightarrow> string \<Rightarrow> path list \<Rightarrow> world \<Rightarrow> (py_error + unit) \<times> world" where
  "email_step t insta_caption fs w =
     (let user = environ w ''GMAIL_USER'';
          app_password = environ w ''GMAIL_APP_PASSWORD'';
          recipient = environ w ''RECIPIENT''
      in if \<not> (truthy user \<and> truthy app_password \<and> truthy recipient) then
           (Inl (EnvironmentError ''Missing email env vars.''),
            logging (LogError (''Missing one of GMAIL_USER / GMAIL_APP_PASSWORD / RECIPIENT ''
                               @ ''(set as GitHub Secrets). Aborting email send.'')) w)
         else
           (let subject = ''Carousel: '' @ get_default (title t) ''AI for MSMEs''
                            @ '' ('' @ isoformat (today w) @ '')'';
                body = insta_caption @ newline @ newline @ ''(Images attached)''
            in case send_email (the user) (the app_password) (the recipient) subject body fs w of
                 (Inl err, w') \<Rightarrow> (Inl err, w')
               | (Inr u, w') \<Rightarrow> (Inr (), logging (LogInfo (''Email sent to '' @ the recipient)) w')))"

definition main :: "env \<Rightarrow> bool \<Rightarrow> world \<Rightarrow> (py_error + unit) \<times> world" where
  "main e send_email_flag w =
     (case load_topics w of
        (Inl err, w1) \<Rightarrow> (Inl err, w1)
      | (Inr topics, w1) \<Rightarrow>
          (case select_topic (today w1) topics of
             Inl err \<Rightarrow> (Inl err, w1)
           | Inr (idx, t) \<Rightarrow>
               (case generate_carousel e t w1 of
                  (Inl err, w2) \<Rightarrow> (Inl err, w2)
                | (Inr (outdir, fs, zip_path), w2) \<Rightarrow>
                    (let (li_caption, insta_caption) = compose_captions t;
                         w3 = logging (LogInfo (''Generated output: '' @ outdir)) w2;
                         w4 = logging (LogInfo (''ZIP created: '' @ zip_path)) w3;
                         w5 = logging (LogInfo (''LinkedIn caption:'' @ newline @ li_caption)) w4;
                         w6 = logging (LogInfo (''Instagram caption:'' @ newline @ insta_caption)) w5
                     in if send_email_flag then email_step t insta_caption fs w6
                        else (Inr (), w6)))))"

text \<open>
  The \<^verbatim>\<open>__main__\<close> block after argument parsing: the exit status of the process and
  the world it leaves.
\<close>

definition script :: "env \<Rightarrow> bool \<Rightarrow> world \<Rightarrow> nat \<times> world" where
  "script e send_email_flag w =
     (case main e send_email_flag w of
        (Inr u, w') \<Rightarrow> (0, w')
      | (Inl err, w') \<Rightarrow> (1, logging (LogFailed err) w'))"

subsection \<open>A sample run\<close>

text \<open>
  A font directory holding one of the candidate fonts, fixed-width text measurement, the
  topic of the example \<^verbatim>\<open>{"title":"T","slides":["a","b","c"]}\<close> and a second topic
  without slides, on 3 November 2026 (day ordinal 739923).
\<close>

definition demo_env :: env where
  "demo_env =
     \<lparr>path_exists = (\<lambda>p. p = ''/usr/share/fonts/truetype/dejavu/DejaVuSans.ttf''),
      truetype_loads = (\<lambda>p sz. 0 < sz),
      textsize = (\<lambda>s f. (10 * int (length s), 20)),
      multiline_textsize = (\<lambda>s f sp. (10 * int (length s), 40)),
      fill = (\<lambda>s width. s),
      archive_name = (\<lambda>base fmt. base @ ''.'' @ fmt)\<rparr>"

text \<open>The same environment with none of the candidate fonts installed.\<close>

definition nofont_env :: env where
  "nofont_env = demo_env\<lparr>path_exists := (\<lambda>p. False)\<rparr>"

definition demo_topic :: topic where
  "demo_topic =
     \<lparr>title = Some ''T'', slides = Some [''a'', ''b'', ''c''], short_caption = None,
      long_caption = None, hashtags = Some [''#ai'', ''#msme'']\<rparr>"

definition bare_topic :: topic where
  "bare_topic =
     \<lparr>title = Some ''E'', slides = None, short_caption = Some ''short'',
      long_caption = Some ''long'', hashtags = None\<rparr>"

definition demo_world :: world where
  "demo_world =
     \<lparr>topics_json = Parsed [bare_topic, demo_topic],
      today = \<lparr>toordinal = 739923, isoformat = ''2026-11-03''\<rparr>,
      environ = Map.empty, dirs = {}, files = Map.empty, archives = Map.empty,
      smtp_fault = None, smtp_log = [], log = []\<rparr>"

definition missing_world :: world where
  "missing_world = demo_world\<lparr>topics_json := Missing\<rparr>"

definition empty_world :: world where
  "empty_world = demo_world\<lparr>topics_json := Parsed []\<rparr>"

text \<open>The same day with two of the three mail variables set.\<close>

definition partial_env_world :: world where
  "partial_env_world =
     demo_world\<lparr>environ := [''GMAIL_USER'' \<mapsto> ''sender@example.org'', ''RECIPIENT'' \<mapsto> ''to@example.org'']\<rparr>"

section \<open>Properties\<close>

subsection \<open>Decimal strings and slide paths\<close>

lemma digits_distinct: "distinct ''0123456789''"
  by simp

lemma digit_char_inj:
  assumes "a < 10" "b < 10" "digit_char a = digit_char b"
  shows "a = b"
proof -
  have "a < length ''0123456789''" "b < length ''0123456789''"
    using assms by simp_all
  with assms(3) digits_distinct show ?thesis
    unfolding digit_char_def by (simp only: nth_eq_iff_index_eq)
qed

lemma str_nat_nonempty: "str_nat n \<noteq> []"
  by (subst str_nat.simps) simp

lemma str_nat_small: "n < 10 \<Longrightarrow> str_nat n = [digit_char n]"
  by (subst str_nat.simps) simp

lemma str_nat_large:
  "\<not> n < 10 \<Longrightarrow> str_nat n = str_nat (n div 10) @ [digit_char (n mod 10)]"
  by (subst str_nat.simps) simp

lemma str_nat_inj: "str_nat m = str_nat n \<Longrightarrow> m = n"
proof (induction m arbitrary: n rule: str_nat.induct)
  case (1 m)
  show ?case
  proof (cases "m < 10")
    case small_m: True
    show ?thesis
    proof (cases "n < 10")
      case True
      with small_m "1.prems" show ?thesis
        by (simp add: str_nat_small digit_char_inj)
    next
      case False
      with small_m "1.prems" str_nat_nonempty [of "n div 10"] show ?thesis
        by (simp add: str_nat_small str_nat_large)
    qed
  next
    case large_m: False
    show ?thesis
    proof (cases "n < 10")
      case True
      with large_m "1.prems" str_nat_nonempty [of "m div 10"] show ?thesis
        by (simp add: str_nat_small str_nat_large)
    next
      case False
      with large_m "1.prems" have eq: "str_nat (m div 10) = str_nat (n div 10)"
        and d: "digit_char (m mod 10) = digit_char (n mod 10)"
        by (simp_all add: str_nat_large)
      from "1.IH" [OF large_m eq] have "m div 10 = n div 10" .
      moreover from d have "m mod 10 = n mod 10"
        by (rule digit_char_inj [rotated 2]) simp_all
      ultimately show ?thesis
        by (metis div_mult_mod_eq)
    qed
  qed
qed

lemma slide_path_inj:
  assumes "path_join d (''slide_'' @ str_nat i @ ''.png'') = path_join d (''slide_'' @ str_nat j @ ''.png'')"
  shows "i = j"
proof -
  from assms have "str_nat i @ ''.png'' = str_nat j @ ''.png''"
    by (simp add: path_join_def split: if_splits)
  then show ?thesis by (simp add: str_nat_inj)
qed

subsection \<open>The renderer\<close>

lemma font_encodes_loaded: "f \<noteq> DefaultFont \<Longrightarrow> font_encodes f s"
  by (cases f) simp_all

lemma footer_not_latin1: "\<not> latin1 (''AI for MSMEs '' @ bullet @ '' Slide '' @ str_nat n)"
  by (simp add: latin1_def bullet_def)

lemma draw_footer_default: "draw_footer e ops n DefaultFont = Inl UnicodeEncodeError"
  using footer_not_latin1 [of n]
  by (simp add: draw_footer_def draw_textsize_def SLIDE_SIZE_def Let_def)

lemma draw_errors:
  "draw_textsize e s f = Inl err \<Longrightarrow> err = UnicodeEncodeError"
  "draw_multiline_textsize e s f sp = Inl err \<Longrightarrow> err = UnicodeEncodeError"
  "draw_text ops xy s f c = Inl err \<Longrightarrow> err = UnicodeEncodeError"
  "draw_multiline_text ops xy s f c a sp = Inl err \<Longrightarrow> err = UnicodeEncodeError"
  by (simp_all add: draw_textsize_def draw_multiline_textsize_def draw_text_def
        draw_multiline_text_def split: if_splits)

lemma draw_cta_error: "draw_cta e ops cta f = Inl err \<Longrightarrow> err = UnicodeEncodeError"
  by (auto simp add: draw_cta_def SLIDE_SIZE_def Let_def draw_rectangle_def
        split: if_splits sum.splits dest: draw_errors)

lemma draw_footer_error: "draw_footer e ops n f = Inl err \<Longrightarrow> err = UnicodeEncodeError"
  by (auto simp add: draw_footer_def SLIDE_SIZE_def Let_def split: sum.splits dest: draw_errors)

lemma slide_image_error: "slide_image e ttl body cta n = Inl err \<Longrightarrow> err = UnicodeEncodeError"
  by (auto simp add: slide_image_def SLIDE_SIZE_def Let_def
        split: sum.splits dest: draw_errors draw_cta_error draw_footer_error)

lemma slide_image_default_footer_font:
  assumes "find_font e 18 = DefaultFont"
  shows "slide_image e ttl body cta n = Inl UnicodeEncodeError"
proof (cases "slide_image e ttl body cta n")
  case (Inl err)
  with slide_image_error [OF Inl] show ?thesis
    by simp
next
  case (Inr img)
  then show ?thesis
    by (auto simp add: slide_image_def SLIDE_SIZE_def Let_def assms draw_footer_default
          split: sum.splits)
qed

lemma slide_image_size:
  "slide_image e ttl body cta n = Inr img \<Longrightarrow> im_size img = (1080, 1080)"
  by (auto simp add: slide_image_def draw_footer_def SLIDE_SIZE_def Let_def
        split: sum.splits)

lemma slide_image_cta_ops:
  assumes "slide_image e ttl body cta n = Inr img"
  shows "(cta_ops_of img = []) = (cta = [])"
  using assms
  by (auto simp add: slide_image_def draw_footer_def draw_cta_def SLIDE_SIZE_def Let_def
        cta_ops_of_def draw_rectangle_def draw_text_def draw_multiline_text_def
        split: sum.splits if_splits)

lemma slide_image_returns:
  assumes "fonts_load e"
  shows "\<exists>img. slide_image e ttl body cta n = Inr img"
  using assms
  by (simp add: fonts_load_def slide_image_def draw_footer_def draw_cta_def SLIDE_SIZE_def Let_def
        draw_textsize_def draw_multiline_textsize_def draw_text_def draw_multiline_text_def
        font_encodes_loaded split_def)

lemma render_slide_ok:
  assumes "fonts_load e"
  shows "render_slide e ttl body cta n p w =
         (Inr (), save (projr (slide_image e ttl body cta n)) p w)"
  using slide_image_returns [OF assms, of ttl body cta n]
  by (auto simp add: render_slide_def)

lemma render_slide_default_footer_font:
  assumes "find_font e 18 = DefaultFont"
  shows "render_slide e ttl body cta n p w = (Inl UnicodeEncodeError, w)"
  by (simp add: render_slide_def slide_image_default_footer_font [OF assms])

subsection \<open>The slide loop\<close>

lemma carousel_loop_paths:
  assumes "fonts_load e"
  shows "fst (carousel_loop e t outdir n (enumerate k ss) w fs) =
     Inr (fs @ map (\<lambda>i. path_join outdir (''slide_'' @ str_nat i @ ''.png'')) [k..<k + length ss])"
proof (induction ss arbitrary: k w fs)
  case Nil
  show ?case by simp
next
  case (Cons s ss)
  show ?case
    by (simp add: Cons.IH Let_def render_slide_ok [OF assms] upt_conv_Cons del: upt_Suc)
qed

lemma carousel_loop_frame:
  "snd (carousel_loop e t outdir n xs w fs) =
     w\<lparr>files := files (snd (carousel_loop e t outdir n xs w fs))\<rparr>"
proof (induction xs arbitrary: w fs)
  case Nil
  show ?case by simp
next
  case (Cons x xs)
  let ?ttl = "if fst x = 1 then get_default (title t) ''AI for MSMEs'' else ''Slide '' @ str_nat (fst x)"
  let ?cta = "if fst x = n then cta_text else []"
  let ?p = "path_join outdir (''slide_'' @ str_nat (fst x) @ ''.png'')"
  show ?case
  proof (cases "slide_image e ?ttl (snd x) ?cta (fst x)")
    case (Inl err)
    then show ?thesis
      by (simp add: Let_def render_slide_def)
  next
    case (Inr img)
    then have step: "snd (carousel_loop e t outdir n (x # xs) w fs) =
        snd (carousel_loop e t outdir n xs (save img ?p w) (fs @ [?p]))"
      by (simp add: Let_def render_slide_def)
    have "snd (carousel_loop e t outdir n xs (save img ?p w) (fs @ [?p])) =
        (save img ?p w)\<lparr>files := files (snd (carousel_loop e t outdir n xs (save img ?p w) (fs @ [?p])))\<rparr>"
      by (rule Cons.IH)
    with step show ?thesis
      by (simp add: save_def)
  qed
qed

lemma carousel_loop_untouched:
  assumes "\<forall>i. k \<le> i \<and> i < k + length ss \<longrightarrow> p \<noteq> path_join outdir (''slide_'' @ str_nat i @ ''.png'')"
  shows "files (snd (carousel_loop e t outdir n (enumerate k ss) w fs)) p = files w p"
  using assms
proof (induction ss arbitrary: k w fs)
  case Nil
  show ?case by simp
next
  case (Cons s ss)
  from Cons.prems have here: "p \<noteq> path_join outdir (''slide_'' @ str_nat k @ ''.png'')"
    by simp
  from Cons.prems have later:
    "\<forall>i. Suc k \<le> i \<and> i < Suc k + length ss \<longrightarrow> p \<noteq> path_join outdir (''slide_'' @ str_nat i @ ''.png'')"
    by simp
  let ?ttl = "if k = 1 then get_default (title t) ''AI for MSMEs'' else ''Slide '' @ str_nat k"
  let ?cta = "if k = n then cta_text else []"
  show ?case
  proof (cases "slide_image e ?ttl s ?cta k")
    case (Inl err)
    then show ?thesis
      by (simp add: Let_def render_slide_def)
  next
    case (Inr img)
    with here show ?thesis
      by (simp add: Let_def Cons.IH [OF later] render_slide_def save_def)
  qed
qed

lemma carousel_loop_written:
  assumes "fonts_load e" and "k \<le> i" and "i < k + length ss"
  shows "files (snd (carousel_loop e t outdir n (enumerate k ss) w fs))
           (path_join outdir (''slide_'' @ str_nat i @ ''.png'')) =
         Some (projr (slide_image e
                 (if i = 1 then get_default (title t) ''AI for MSMEs'' else ''Slide '' @ str_nat i)
                 (ss ! (i - k)) (if i = n then cta_text else []) i))"
  using assms(2,3)
proof (induction ss arbitrary: k w fs)
  case Nil
  then show ?case by simp
next
  case (Cons s ss)
  show ?case
  proof (cases "i = k")
    case True
    have "\<forall>j. Suc k \<le> j \<and> j < Suc k + length ss \<longrightarrow>
            path_join outdir (''slide_'' @ str_nat i @ ''.png'') \<noteq>
            path_join outdir (''slide_'' @ str_nat j @ ''.png'')"
      using True slide_path_inj by fastforce
    from carousel_loop_untouched [OF this] True show ?thesis
      by (simp add: Let_def render_slide_ok [OF assms(1)] save_def)
  next
    case False
    with Cons.prems have "Suc k \<le> i" "i < Suc k + length ss"
      by simp_all
    from Cons.IH [OF this] False \<open>Suc k \<le> i\<close> show ?thesis
      by (simp add: Let_def render_slide_ok [OF assms(1)] Suc_diff_le)
  qed
qed

lemma carousel_loop_default_footer_font:
  assumes "find_font e 18 = DefaultFont" and "xs \<noteq> []"
  shows "carousel_loop e t outdir n xs w fs = (Inl UnicodeEncodeError, w)"
  using assms(2)
  by (cases xs) (simp_all add: Let_def render_slide_default_footer_font [OF assms(1)])

subsection \<open>The generator\<close>

lemma outdir_eq: "path_join OUT_BASE (''carousel_'' @ s) = ''output/carousel_'' @ s"
  by (simp add: path_join_def OUT_BASE_def)

lemma dir_prefixes_whole: "acc @ p \<in> set (dir_prefixes acc p)"
proof (induction p arbitrary: acc)
  case Nil
  show ?case by simp
next
  case (Cons c cs)
  from Cons.IH [of "acc @ [c]"] show ?case by auto
qed

lemma makedirs_creates: "p \<noteq> [] \<Longrightarrow> p \<in> dirs (makedirs p w)"
  using dir_prefixes_whole [of "[]" p] by (simp add: makedirs_def)

lemma makedirs_keeps: "dirs w \<subseteq> dirs (makedirs p w)"
  by (simp add: makedirs_def)

lemma generate_carousel_unfold:
  assumes "d = ''output/carousel_'' @ isoformat (today w)"
    and "sl = get_default (slides t) []"
  shows "generate_carousel e t w =
     (case carousel_loop e t d (length sl) (enumerate 1 sl) (makedirs d w) [] of
        (Inl err, w2) \<Rightarrow> (Inl err, w2)
      | (Inr fs, w2) \<Rightarrow>
          (Inr (d, fs, archive_name e d ''zip''),
           w2\<lparr>archives := (archives w2)
                 (archive_name e d ''zip'' \<mapsto>
                    \<lparr>arc_format = ''zip'', arc_root = d,
                     arc_members = (\<lambda>p. if under d p then files w2 p else None)\<rparr>)\<rparr>))"
  unfolding generate_carousel_def outdir_eq assms
  by (simp add: Let_def make_archive_def split: prod.splits sum.splits)

lemma loop_fields:
  "dirs (snd (carousel_loop e t outdir n xs w fs)) = dirs w"
  "archives (snd (carousel_loop e t outdir n xs w fs)) = archives w"
  "smtp_log (snd (carousel_loop e t outdir n xs w fs)) = smtp_log w"
  "smtp_fault (snd (carousel_loop e t outdir n xs w fs)) = smtp_fault w"
  "environ (snd (carousel_loop e t outdir n xs w fs)) = environ w"
  "today (snd (carousel_loop e t outdir n xs w fs)) = today w"
  "topics_json (snd (carousel_loop e t outdir n xs w fs)) = topics_json w"
  "log (snd (carousel_loop e t outdir n xs w fs)) = log w"
  by (subst carousel_loop_frame, simp)+

text \<open>
  The world after \<open>generate_carousel\<close> is the world after its loop, with the archive
  added when the loop has returned.
\<close>

lemma generate_carousel_world:
  assumes "d = ''output/carousel_'' @ isoformat (today w)"
    and "sl = get_default (slides t) []"
    and "w2 = snd (carousel_loop e t d (length sl) (enumerate 1 sl) (makedirs d w) [])"
  shows "files (snd (generate_carousel e t w)) = files w2"
    and "dirs (snd (generate_carousel e t w)) = dirs w2"
    and "smtp_log (snd (generate_carousel e t w)) = smtp_log w2"
    and "smtp_fault (snd (generate_carousel e t w)) = smtp_fault w2"
    and "environ (snd (generate_carousel e t w)) = environ w2"
    and "today (snd (generate_carousel e t w)) = today w2"
    and "topics_json (snd (generate_carousel e t w)) = topics_json w2"
    and "log (snd (generate_carousel e t w)) = log w2"
proof -
  obtain res w2' where loop: "carousel_loop e t d (length sl) (enumerate 1 sl) (makedirs d w) [] = (res, w2')"
    by (cases "carousel_loop e t d (length sl) (enumerate 1 sl) (makedirs d w) []")
  then have w2: "w2 = w2'"
    by (simp add: assms(3))
  have "files (snd (generate_carousel e t w)) = files w2'
      \<and> dirs (snd (generate_carousel e t w)) = dirs w2'
      \<and> smtp_log (snd (generate_carousel e t w)) = smtp_log w2'
      \<and> smtp_fault (snd (generate_carousel e t w)) = smtp_fault w2'
      \<and> environ (snd (generate_carousel e t w)) = environ w2'
      \<and> today (snd (generate_carousel e t w)) = today w2'
      \<and> topics_json (snd (generate_carousel e t w)) = topics_json w2'
      \<and> log (snd (generate_carousel e t w)) = log w2'"
  proof (cases res)
    case (Inl err)
    show ?thesis
      unfolding generate_carousel_unfold [OF assms(1,2)] loop Inl by simp
  next
    case (Inr fs)
    show ?thesis
      unfolding generate_carousel_unfold [OF assms(1,2)] loop Inr by simp
  qed
  then show "files (snd (generate_carousel e t w)) = files w2"
    and "dirs (snd (generate_carousel e t w)) = dirs w2"
    and "smtp_log (snd (generate_carousel e t w)) = smtp_log w2"
    and "smtp_fault (snd (generate_carousel e t w)) = smtp_fault w2"
    and "environ (snd (generate_carousel e t w)) = environ w2"
    and "today (snd (generate_carousel e t w)) = today w2"
    and "topics_json (snd (generate_carousel e t w)) = topics_json w2"
    and "log (snd (generate_carousel e t w)) = log w2"
    unfolding w2 by simp_all
qed

lemma generate_carousel_fields:
  "smtp_log (snd (generate_carousel e t w)) = smtp_log w"
  "smtp_fault (snd (generate_carousel e t w)) = smtp_fault w"
  "environ (snd (generate_carousel e t w)) = environ w"
  "today (snd (generate_carousel e t w)) = today w"
  "topics_json (snd (generate_carousel e t w)) = topics_json w"
  "log (snd (generate_carousel e t w)) = log w"
  by (simp_all add: generate_carousel_world [OF refl refl refl] loop_fields makedirs_def)

lemma generate_carousel_dirs:
  "dirs (snd (generate_carousel e t w)) =
     dirs (makedirs (''output/carousel_'' @ isoformat (today w)) w)"
  by (simp only: generate_carousel_world(2) [OF refl refl refl] loop_fields(1))

lemma generate_carousel_untouched:
  assumes "\<forall>i. 1 \<le> i \<and> i \<le> length (get_default (slides t) []) \<longrightarrow>
             p \<noteq> path_join (''output/carousel_'' @ isoformat (today w)) (''slide_'' @ str_nat i @ ''.png'')"
  shows "files (snd (generate_carousel e t w)) p = files w p"
proof -
  define d where "d = ''output/carousel_'' @ isoformat (today w)"
  from assms have "\<forall>i. 1 \<le> i \<and> i < 1 + length (get_default (slides t) []) \<longrightarrow>
             p \<noteq> path_join d (''slide_'' @ str_nat i @ ''.png'')"
    unfolding d_def by (simp add: less_Suc_eq_le)
  from carousel_loop_untouched [OF this]
  have "files (snd (carousel_loop e t d (length (get_default (slides t) []))
          (enumerate 1 (get_default (slides t) [])) (makedirs d w) [])) p = files (makedirs d w) p"
    by blast
  then show ?thesis
    by (simp add: generate_carousel_world(1) [OF d_def refl refl] makedirs_def)
qed

lemma generate_carousel_result:
  assumes "fonts_load e"
  shows "fst (generate_carousel e t w) =
     Inr (''output/carousel_'' @ isoformat (today w),
          map (\<lambda>i. path_join (''output/carousel_'' @ isoformat (today w))
                      (''slide_'' @ str_nat i @ ''.png''))
            [1..<Suc (length (get_default (slides t) []))],
          archive_name e (''output/carousel_'' @ isoformat (today w)) ''zip'')"
proof -
  define d where "d = ''output/carousel_'' @ isoformat (today w)"
  define sl where "sl = get_default (slides t) []"
  obtain res w2 where loop: "carousel_loop e t d (length sl) (enumerate 1 sl) (makedirs d w) [] = (res, w2)"
    by (cases "carousel_loop e t d (length sl) (enumerate 1 sl) (makedirs d w) []")
  have "fst (carousel_loop e t d (length sl) (enumerate 1 sl) (makedirs d w) []) =
      Inr ([] @ map (\<lambda>i. path_join d (''slide_'' @ str_nat i @ ''.png'')) [1..<1 + length sl])"
    by (rule carousel_loop_paths [OF assms])
  then have res: "res = Inr (map (\<lambda>i. path_join d (''slide_'' @ str_nat i @ ''.png'')) [1..<Suc (length sl)])"
    unfolding loop by (simp del: upt_Suc)
  have "fst (generate_carousel e t w) =
      Inr (d, map (\<lambda>i. path_join d (''slide_'' @ str_nat i @ ''.png'')) [1..<Suc (length sl)],
           archive_name e d ''zip'')"
    unfolding generate_carousel_unfold [OF d_def sl_def] loop res by simp
  then show ?thesis
    unfolding d_def sl_def .
qed

lemma generate_carousel_archived:
  assumes "fst (generate_carousel e t w) = Inr res"
  shows "\<exists>a. archives (snd (generate_carousel e t w))
               (archive_name e (''output/carousel_'' @ isoformat (today w)) ''zip'') = Some a
           \<and> arc_format a = ''zip'' \<and> arc_root a = ''output/carousel_'' @ isoformat (today w)"
proof -
  define d where "d = ''output/carousel_'' @ isoformat (today w)"
  from assms have "\<exists>a. archives (snd (generate_carousel e t w)) (archive_name e d ''zip'') = Some a
           \<and> arc_format a = ''zip'' \<and> arc_root a = d"
    by (auto simp add: generate_carousel_unfold [OF d_def refl] split: prod.splits sum.splits)
  then show ?thesis
    unfolding d_def .
qed

lemma generate_carousel_written:
  assumes "fonts_load e" and "1 \<le> i" and "i \<le> length (get_default (slides t) [])"
  shows "files (snd (generate_carousel e t w))
           (path_join (''output/carousel_'' @ isoformat (today w)) (''slide_'' @ str_nat i @ ''.png'')) =
         Some (projr (slide_image e
                 (if i = 1 then get_default (title t) ''AI for MSMEs'' else ''Slide '' @ str_nat i)
                 (get_default (slides t) [] ! (i - 1))
                 (if i = length (get_default (slides t) []) then cta_text else []) i))"
proof -
  from assms(2,3) have "1 \<le> i" "i < 1 + length (get_default (slides t) [])"
    by simp_all
  from carousel_loop_written [OF assms(1) this] show ?thesis
    by (simp only: generate_carousel_world(1) [OF refl refl refl])
qed

lemma generate_carousel_default_footer_font:
  assumes "find_font e 18 = DefaultFont" and "get_default (slides t) [] \<noteq> []"
  shows "generate_carousel e t w =
         (Inl UnicodeEncodeError, makedirs (''output/carousel_'' @ isoformat (today w)) w)"
proof -
  define d where "d = ''output/carousel_'' @ isoformat (today w)"
  from assms(2) have "enumerate 1 (get_default (slides t) []) \<noteq> []"
    by (cases "get_default (slides t) []") simp_all
  from carousel_loop_default_footer_font [OF assms(1) this]
  have "generate_carousel e t w = (Inl UnicodeEncodeError, makedirs d w)"
    unfolding generate_carousel_unfold [OF d_def refl] by simp
  then show ?thesis
    unfolding d_def .
qed

subsection \<open>Fonts, topic selection and the main program\<close>

lemma find_font_loop_find:
  "find_font_loop e sz ps =
     (case find (\<lambda>p. path_exists e p \<and> truetype_loads e p sz) ps of
        Some p \<Rightarrow> FreeTypeFont p sz
      | None \<Rightarrow> DefaultFont)"
  by (induction ps) (simp_all add: truetype_def)

lemma demo_slides: "get_default (slides demo_topic) [] = [''a'', ''b'', ''c'']"
  by (simp add: demo_topic_def get_default_def)

lemma select_topic_nonempty:
  assumes "topics \<noteq> []"
  shows "select_topic d topics =
         Inr (toordinal d mod int (length topics), topics ! nat (toordinal d mod int (length topics)))"
proof -
  from assms have pos: "0 < int (length topics)"
    by simp
  then have "\<not> toordinal d mod int (length topics) < 0"
    and "toordinal d mod int (length topics) < int (length topics)"
    by (simp_all add: not_less)
  with assms show ?thesis
    by (simp add: select_topic_def py_mod_def py_index_def Let_def)
qed

lemma select_topic_empty: "select_topic d [] = Inl ZeroDivisionError"
  by (simp add: select_topic_def py_mod_def)

lemma main_load_failure:
  assumes "fst (load_topics w) = Inl err"
  shows "main e flag w = (Inl err, snd (load_topics w))"
  using assms by (cases "load_topics w") (simp add: main_def)

lemma load_topics_missing:
  assumes "topics_json w = Missing"
  shows "load_topics w =
         (Inl (FileNotFoundError ''topics.json missing.''),
          logging (LogError ''topics.json missing in repo root. Create it and commit.'') w)"
  using assms by (simp add: load_topics_def)

lemma load_topics_parsed:
  assumes "topics_json w = Parsed ts"
  shows "load_topics w = (Inr ts, w)"
  using assms by (simp add: load_topics_def)

lemma logging_fields:
  "smtp_log (logging r w) = smtp_log w"
  "environ (logging r w) = environ w"
  "dirs (logging r w) = dirs w"
  "files (logging r w) = files w"
  "archives (logging r w) = archives w"
  by (simp_all add: logging_def)

lemma email_step_missing:
  assumes "environ w ''GMAIL_USER'' = None \<or> environ w ''GMAIL_APP_PASSWORD'' = None
           \<or> environ w ''RECIPIENT'' = None"
  shows "\<exists>msg. email_step t c fs w =
           (Inl (EnvironmentError ''Missing email env vars.''), logging (LogError msg) w)"
proof -
  from assms have "\<not> (truthy (environ w ''GMAIL_USER'') \<and> truthy (environ w ''GMAIL_APP_PASSWORD'')
                     \<and> truthy (environ w ''RECIPIENT''))"
    by (auto simp add: truthy_def)
  then show ?thesis
    by (auto simp add: email_step_def Let_def)
qed

lemma slide_paths_nth:
  assumes "1 \<le> i" and "i \<le> K"
  shows "map f [1..<Suc K] ! (i - 1) = f i"
proof -
  from assms have "i - 1 < length [1..<Suc K]"
    by simp
  then have "map f [1..<Suc K] ! (i - 1) = f ([1..<Suc K] ! (i - 1))"
    by (rule nth_map)
  moreover from assms have "1 + (i - 1) < Suc K"
    by simp
  then have "[1..<Suc K] ! (i - 1) = 1 + (i - 1)"
    by (rule nth_upt)
  ultimately show ?thesis
    using assms by simp
qed

lemma slide_paths_distinct:
  "distinct (map (\<lambda>i. path_join d (''slide_'' @ str_nat i @ ''.png'')) [1..<Suc K])"
proof -
  have "inj_on (\<lambda>i. path_join d (''slide_'' @ str_nat i @ ''.png'')) (set [1..<Suc K])"
    by (rule inj_onI) (rule slide_path_inj)
  then show ?thesis
    by (simp only: distinct_map distinct_upt simp_thms)
qed

lemma demo_fonts_load: "fonts_load demo_env"
  by (simp add: fonts_load_def find_font_def candidates_def demo_env_def truetype_def)

lemma nofont_default: "find_font nofont_env sz = DefaultFont"
  by (simp add: find_font_def candidates_def nofont_env_def)

lemma demo_result:
  "fst (generate_carousel demo_env demo_topic demo_world) =
     Inr (''output/carousel_2026-11-03'',
          [''output/carousel_2026-11-03/slide_1.png'', ''output/carousel_2026-11-03/slide_2.png'',
           ''output/carousel_2026-11-03/slide_3.png''],
          ''output/carousel_2026-11-03.zip'')"
  unfolding generate_carousel_result [OF demo_fonts_load] demo_slides
  by (simp add: path_join_def upt_conv_Cons str_nat_small digit_char_def demo_world_def
        demo_env_def del: upt_Suc)

lemma main_parsed:
  assumes "topics_json w = Parsed ts" and "ts \<noteq> []"
    and "t = ts ! nat (toordinal (today w) mod int (length ts))"
  shows "main e flag w =
     (case generate_carousel e t w of
        (Inl err, w2) \<Rightarrow> (Inl err, w2)
      | (Inr (outdir, fs, zip_path), w2) \<Rightarrow>
          (let w3 = logging (LogInfo (''Generated output: '' @ outdir)) w2;
               w4 = logging (LogInfo (''ZIP created: '' @ zip_path)) w3;
               w5 = logging (LogInfo (''LinkedIn caption:'' @ newline @ fst (compose_captions t))) w4;
               w6 = logging (LogInfo (''Instagram caption:'' @ newline @ snd (compose_captions t))) w5
           in if flag then email_step t (snd (compose_captions t)) fs w6
              else (Inr (), w6)))"
  by (simp add: main_def load_topics_parsed [OF assms(1)] select_topic_nonempty [OF assms(2)]
        assms(3) Let_def split_def split: prod.splits sum.splits)

lemma main_render_failure:
  assumes "topics_json w = Parsed ts" and "ts \<noteq> []"
    and "t = ts ! nat (toordinal (today w) mod int (length ts))"
    and "fst (generate_carousel e t w) = Inl err"
  shows "main e flag w = (Inl err, snd (generate_carousel e t w))"
  using assms(4) unfolding main_parsed [OF assms(1,2,3)]
  by (cases "generate_carousel e t w") simp

lemma main_before_email:
  assumes "topics_json w = Parsed ts" and "ts \<noteq> []"
    and "t = ts ! nat (toordinal (today w) mod int (length ts))"
    and "fst (generate_carousel e t w) = Inr res"
  shows "\<exists>c fs w6. main e True w = email_step t c fs w6 \<and> environ w6 = environ w
           \<and> smtp_log w6 = smtp_log w"
proof -
  obtain outdir fs zp where res: "res = (outdir, fs, zp)"
    by (cases res)
  obtain w2 where gc: "generate_carousel e t w = (Inr (outdir, fs, zp), w2)"
    using assms(4) res by (cases "generate_carousel e t w") simp
  from generate_carousel_fields(1,3) [of e t w] gc
  have kept: "smtp_log w2 = smtp_log w" "environ w2 = environ w"
    by simp_all
  show ?thesis
    unfolding main_parsed [OF assms(1,2,3)] gc
    apply (simp only: prod.case sum.case Let_def if_True)
    apply (intro exI conjI)
      apply (rule refl)
     apply (simp_all add: logging_fields kept)
    done
qed

text \<open>
  Without any candidate font every text is measured with the default bitmap font, the
  footer cannot be encoded, and the run of the sample topic ends in
  \<^verbatim>\<open>UnicodeEncodeError\<close> with the output directory created and no slide written.
\<close>

lemma no_candidate_font_no_slide:
  "generate_carousel nofont_env demo_topic demo_world =
     (Inl UnicodeEncodeError, makedirs ''output/carousel_2026-11-03'' demo_world)
   \<and> files (snd (generate_carousel nofont_env demo_topic demo_world)) = files demo_world
   \<and> main nofont_env False demo_world =
       (Inl UnicodeEncodeError, makedirs ''output/carousel_2026-11-03'' demo_world)
   \<and> fst (script nofont_env False demo_world) = 1"
proof -
  have slides: "get_default (slides demo_topic) [] \<noteq> []"
    by (simp add: demo_slides)
  have gc: "generate_carousel nofont_env demo_topic demo_world =
     (Inl UnicodeEncodeError, makedirs ''output/carousel_2026-11-03'' demo_world)"
    using generate_carousel_default_footer_font [OF nofont_default slides, of demo_world]
    by (simp add: demo_world_def)
  have parsed: "topics_json demo_world = Parsed [bare_topic, demo_topic]"
    and nonempty: "[bare_topic, demo_topic] \<noteq> []"
    and chosen: "demo_topic = [bare_topic, demo_topic] !
        nat (toordinal (today demo_world) mod int (length [bare_topic, demo_topic]))"
    by (simp_all add: demo_world_def)
  have run: "main nofont_env False demo_world =
       (Inl UnicodeEncodeError, makedirs ''output/carousel_2026-11-03'' demo_world)"
    using main_render_failure [OF parsed nonempty chosen, of nofont_env UnicodeEncodeError False]
    by (simp add: gc)
  from gc run show ?thesis
    by (simp add: script_def makedirs_def)
qed

section \<open>The claims\<close>

text \<open>
  C1. In an environment where a candidate font loads at the four sizes used, for a topic
  whose slide list has \<open>K\<close> entries \<open>generate_carousel\<close> returns exactly the \<open>K\<close> paths
  \<^verbatim>\<open>slide_1.png\<close> to \<^verbatim>\<open>slide_K.png\<close> of the output directory, in increasing slide order and
  without repetition; after the call each of them holds an image of size 1080 by 1080, and
  no other image file has changed.
\<close>

theorem generate_carousel_renders_all_slides:
  assumes "fonts_load e"
    and "K = length (get_default (slides t) [])"
    and "outdir = ''output/carousel_'' @ isoformat (today w)"
    and "fs = map (\<lambda>i. path_join outdir (''slide_'' @ str_nat i @ ''.png'')) [1..<Suc K]"
    and "r = generate_carousel e t w"
  shows "fst r = Inr (outdir, fs, archive_name e outdir ''zip'')
    \<and> length fs = K
    \<and> distinct fs
    \<and> (\<forall>i. 1 \<le> i \<and> i \<le> K \<longrightarrow>
          (\<exists>img. files (snd r) (fs ! (i - 1)) = Some img \<and> im_size img = (1080, 1080)))
    \<and> (\<forall>p. p \<notin> set fs \<longrightarrow> files (snd r) p = files w p)"
proof -
  let ?path = "\<lambda>i. path_join outdir (''slide_'' @ str_nat i @ ''.png'')"
  have result: "fst r = Inr (outdir, fs, archive_name e outdir ''zip'')"
    unfolding assms(2,3,4,5) by (rule generate_carousel_result [OF assms(1)])
  have len: "length fs = K"
    unfolding assms(4) by simp
  have dist: "distinct fs"
    unfolding assms(4) by (rule slide_paths_distinct)
  have written: "\<exists>img. files (snd r) (fs ! (i - 1)) = Some img \<and> im_size img = (1080, 1080)"
    if "1 \<le> i" "i \<le> K" for i
  proof -
    let ?ttl = "if i = 1 then get_default (title t) ''AI for MSMEs'' else ''Slide '' @ str_nat i"
    let ?cta = "if i = length (get_default (slides t) []) then cta_text else []"
    from that have range: "1 \<le> i" "i \<le> length (get_default (slides t) [])"
      by (simp_all add: assms(2))
    obtain img where img: "slide_image e ?ttl (get_default (slides t) [] ! (i - 1)) ?cta i = Inr img"
      using slide_image_returns [OF assms(1)] by blast
    have "fs ! (i - 1) = ?path i"
      unfolding assms(4) using that by (rule slide_paths_nth)
    then have "files (snd r) (fs ! (i - 1)) = Some img"
      using generate_carousel_written [OF assms(1) range, of w] img
      by (simp add: assms(3,5))
    with slide_image_size [OF img] show ?thesis
      by simp
  qed
  have untouched: "files (snd r) p = files w p" if "p \<notin> set fs" for p
  proof -
    from that have "\<forall>i. 1 \<le> i \<and> i \<le> length (get_default (slides t) []) \<longrightarrow>
        p \<noteq> path_join (''output/carousel_'' @ isoformat (today w)) (''slide_'' @ str_nat i @ ''.png'')"
      unfolding assms(2,3,4) by (auto simp del: upt_Suc)
    from generate_carousel_untouched [OF this] show ?thesis
      by (simp add: assms(5))
  qed
  from result len dist written untouched show ?thesis
    by blast
qed

text \<open>
  The three-slide topic: three paths, a 1080 by 1080 image at the second, nothing at a
  fourth.
\<close>

theorem generate_carousel_renders_all_slides_witness:
  "fonts_load demo_env
   \<and> fst (generate_carousel demo_env demo_topic demo_world) =
       Inr (''output/carousel_2026-11-03'',
            [''output/carousel_2026-11-03/slide_1.png'', ''output/carousel_2026-11-03/slide_2.png'',
             ''output/carousel_2026-11-03/slide_3.png''],
            ''output/carousel_2026-11-03.zip'')
   \<and> (\<exists>img. files (snd (generate_carousel demo_env demo_topic demo_world))
                ''output/carousel_2026-11-03/slide_2.png'' = Some img
            \<and> im_size img = (1080, 1080))
   \<and> files (snd (generate_carousel demo_env demo_topic demo_world))
        ''output/carousel_2026-11-03/slide_4.png'' = None"
proof -
  have K: "3 = length (get_default (slides demo_topic) [])"
    by (simp add: demo_slides)
  have out: "''output/carousel_2026-11-03'' = ''output/carousel_'' @ isoformat (today demo_world)"
    by (simp add: demo_world_def)
  have fs: "[''output/carousel_2026-11-03/slide_1.png'', ''output/carousel_2026-11-03/slide_2.png'',
      ''output/carousel_2026-11-03/slide_3.png''] =
      map (\<lambda>i. path_join ''output/carousel_2026-11-03'' (''slide_'' @ str_nat i @ ''.png'')) [1..<Suc 3]"
    by (simp add: path_join_def upt_conv_Cons str_nat_small digit_char_def del: upt_Suc)
  note all = generate_carousel_renders_all_slides [OF demo_fonts_load K out fs refl]
  from all have result: "fst (generate_carousel demo_env demo_topic demo_world) =
       Inr (''output/carousel_2026-11-03'',
            [''output/carousel_2026-11-03/slide_1.png'', ''output/carousel_2026-11-03/slide_2.png'',
             ''output/carousel_2026-11-03/slide_3.png''],
            archive_name demo_env ''output/carousel_2026-11-03'' ''zip'')"
    by (rule conjunct1)
  from all have each: "\<forall>i. 1 \<le> i \<and> i \<le> 3 \<longrightarrow>
      (\<exists>img. files (snd (generate_carousel demo_env demo_topic demo_world))
          ([''output/carousel_2026-11-03/slide_1.png'', ''output/carousel_2026-11-03/slide_2.png'',
            ''output/carousel_2026-11-03/slide_3.png''] ! (i - 1)) = Some img
            \<and> im_size img = (1080, 1080))"
    by (elim conjE)
  from each [rule_format, of 2]
  have second: "\<exists>img. files (snd (generate_carousel demo_env demo_topic demo_world))
                ''output/carousel_2026-11-03/slide_2.png'' = Some img
            \<and> im_size img = (1080, 1080)"
    by simp
  from all have rest: "\<forall>p. p \<notin> set [''output/carousel_2026-11-03/slide_1.png'',
        ''output/carousel_2026-11-03/slide_2.png'', ''output/carousel_2026-11-03/slide_3.png''] \<longrightarrow>
      files (snd (generate_carousel demo_env demo_topic demo_world)) p = files demo_world p"
    by (elim conjE)
  from rest [rule_format, of "''output/carousel_2026-11-03/slide_4.png''"]
  have "files (snd (generate_carousel demo_env demo_topic demo_world))
        ''output/carousel_2026-11-03/slide_4.png'' =
        files demo_world ''output/carousel_2026-11-03/slide_4.png''"
    by simp
  then have fourth: "files (snd (generate_carousel demo_env demo_topic demo_world))
        ''output/carousel_2026-11-03/slide_4.png'' = None"
    by (simp add: demo_world_def)
  have zip: "archive_name demo_env ''output/carousel_2026-11-03'' ''zip'' = ''output/carousel_2026-11-03.zip''"
    by (simp add: demo_env_def)
  from result second fourth demo_fonts_load show ?thesis
    unfolding zip by (simp only: simp_thms)
qed

text \<open>
  C2. In an environment where a candidate font loads at the four sizes used, for a topic
  with at least one slide and every slide index \<open>i\<close> from 1 to the slide count, the image
  written at the \<open>i\<close>-th returned path is what the renderer draws for the slide's body with
  the CTA string \<^verbatim>\<open>Email for template: arunksurana@gmail.com\<close> when \<open>i\<close> is the slide count
  and with the empty CTA otherwise; it contains the drawing calls of the CTA badge exactly
  when \<open>i\<close> is the slide count. In any environment, an image the renderer returns has
  none of the badge's drawing calls exactly when the CTA string given is empty.
\<close>

theorem cta_only_on_last_slide:
  assumes "fonts_load e"
    and "sl = get_default (slides t) []"
    and "1 \<le> i" and "i \<le> length sl"
    and "r = generate_carousel e t w"
  shows "(\<exists>outdir fs zip_path img ttl.
            fst r = Inr (outdir, fs, zip_path)
          \<and> files (snd r) (fs ! (i - 1)) = Some img
          \<and> slide_image e ttl (sl ! (i - 1))
               (if i = length sl then ''Email for template: arunksurana@gmail.com'' else []) i = Inr img
          \<and> (cta_ops_of img \<noteq> []) = (i = length sl))
    \<and> (\<forall>ttl body cta n img. slide_image e ttl body cta n = Inr img \<longrightarrow>
          (cta_ops_of img = []) = (cta = []))"
proof -
  let ?outdir = "''output/carousel_'' @ isoformat (today w)"
  let ?path = "\<lambda>i. path_join ?outdir (''slide_'' @ str_nat i @ ''.png'')"
  let ?ttl = "if i = 1 then get_default (title t) ''AI for MSMEs'' else ''Slide '' @ str_nat i"
  let ?cta = "if i = length sl then ''Email for template: arunksurana@gmail.com'' else []"
  define fs where "fs = map ?path [1..<Suc (length (get_default (slides t) []))]"
  from assms(3,4) have range: "1 \<le> i" "i \<le> length (get_default (slides t) [])"
    by (simp_all add: assms(2))
  have result: "fst r = Inr (?outdir, fs, archive_name e ?outdir ''zip'')"
    unfolding assms(5) fs_def by (rule generate_carousel_result [OF assms(1)])
  obtain img where img0: "slide_image e ?ttl (get_default (slides t) [] ! (i - 1))
      (if i = length (get_default (slides t) []) then cta_text else []) i = Inr img"
    using slide_image_returns [OF assms(1)] by blast
  have nth: "fs ! (i - 1) = ?path i"
    unfolding fs_def using range by (rule slide_paths_nth)
  have "files (snd r) (?path i) = Some (projr (slide_image e ?ttl (get_default (slides t) [] ! (i - 1))
      (if i = length (get_default (slides t) []) then cta_text else []) i))"
    unfolding assms(5) by (rule generate_carousel_written [OF assms(1) range])
  then have stored: "files (snd r) (fs ! (i - 1)) = Some img"
    unfolding img0 nth by simp
  from img0 have img: "slide_image e ?ttl (sl ! (i - 1)) ?cta i = Inr img"
    unfolding assms(2) cta_text_def .
  have badge: "(cta_ops_of img \<noteq> []) = (i = length sl)"
    using slide_image_cta_ops [OF img] by simp
  from result stored img badge
  have "\<exists>outdir fs zip_path img ttl.
            fst r = Inr (outdir, fs, zip_path)
          \<and> files (snd r) (fs ! (i - 1)) = Some img
          \<and> slide_image e ttl (sl ! (i - 1)) ?cta i = Inr img
          \<and> (cta_ops_of img \<noteq> []) = (i = length sl)"
    by blast
  moreover have "\<forall>ttl body cta n img. slide_image e ttl body cta n = Inr img \<longrightarrow>
          (cta_ops_of img = []) = (cta = [])"
    using slide_image_cta_ops by blast
  ultimately show ?thesis
    by (rule conjI)
qed

text \<open>
  The three-slide topic: the third slide is rendered with the CTA string, the first has
  no badge.
\<close>

theorem cta_only_on_last_slide_witness:
  "fonts_load demo_env
   \<and> (\<exists>img ttl. files (snd (generate_carousel demo_env demo_topic demo_world))
             ''output/carousel_2026-11-03/slide_3.png'' = Some img
         \<and> slide_image demo_env ttl ''c'' ''Email for template: arunksurana@gmail.com'' 3 = Inr img
         \<and> cta_ops_of img \<noteq> [])
   \<and> (\<exists>img ttl. files (snd (generate_carousel demo_env demo_topic demo_world))
             ''output/carousel_2026-11-03/slide_1.png'' = Some img
         \<and> slide_image demo_env ttl ''a'' [] 1 = Inr img
         \<and> cta_ops_of img = [])"
proof -
  have len: "(3::nat) \<le> length (get_default (slides demo_topic) [])"
    "(1::nat) \<le> length (get_default (slides demo_topic) [])"
    by (simp_all add: demo_slides)
  from cta_only_on_last_slide [OF demo_fonts_load refl _ len(1) refl, of demo_world]
  have last: "\<exists>img ttl. files (snd (generate_carousel demo_env demo_topic demo_world))
             ''output/carousel_2026-11-03/slide_3.png'' = Some img
         \<and> slide_image demo_env ttl ''c'' ''Email for template: arunksurana@gmail.com'' 3 = Inr img
         \<and> cta_ops_of img \<noteq> []"
    by (auto simp add: demo_result demo_slides)
  from cta_only_on_last_slide [OF demo_fonts_load refl _ len(2) refl, of demo_world]
  have first: "\<exists>img ttl. files (snd (generate_carousel demo_env demo_topic demo_world))
             ''output/carousel_2026-11-03/slide_1.png'' = Some img
         \<and> slide_image demo_env ttl ''a'' [] 1 = Inr img
         \<and> cta_ops_of img = []"
    by (auto simp add: demo_result demo_slides)
  from last first demo_fonts_load show ?thesis
    by (simp only: simp_thms)
qed

text \<open>
  C3. In an environment where a candidate font loads at the four sizes used, for a topic
  with a title and \<open>K \<ge> 1\<close> slide texts, the image written at the first returned path is
  what the renderer draws with the topic's title, and the image written at the \<open>i\<close>-th
  returned path, for every \<open>i\<close> with \<open>2 \<le> i \<le> K\<close>, is what it draws with the generated
  title \<^verbatim>\<open>Slide i\<close>.
\<close>

theorem first_slide_title_then_generated:
  assumes "fonts_load e"
    and "sl = get_default (slides t) []"
    and "1 \<le> i" and "i \<le> length sl"
    and "title t = Some ttl"
    and "r = generate_carousel e t w"
  shows "\<exists>outdir fs zip_path img cta.
            fst r = Inr (outdir, fs, zip_path)
          \<and> files (snd r) (fs ! (i - 1)) = Some img
          \<and> slide_image e (if i = 1 then ttl else ''Slide '' @ str_nat i) (sl ! (i - 1)) cta i = Inr img"
proof -
  let ?outdir = "''output/carousel_'' @ isoformat (today w)"
  let ?path = "\<lambda>i. path_join ?outdir (''slide_'' @ str_nat i @ ''.png'')"
  let ?ttl = "if i = 1 then ttl else ''Slide '' @ str_nat i"
  let ?cta = "if i = length sl then cta_text else []"
  define fs where "fs = map ?path [1..<Suc (length (get_default (slides t) []))]"
  from assms(3,4) have range: "1 \<le> i" "i \<le> length (get_default (slides t) [])"
    by (simp_all add: assms(2))
  have result: "fst r = Inr (?outdir, fs, archive_name e ?outdir ''zip'')"
    unfolding assms(6) fs_def by (rule generate_carousel_result [OF assms(1)])
  let ?shown = "if i = 1 then get_default (title t) ''AI for MSMEs'' else ''Slide '' @ str_nat i"
  obtain img where img0: "slide_image e ?shown (get_default (slides t) [] ! (i - 1))
      (if i = length (get_default (slides t) []) then cta_text else []) i = Inr img"
    using slide_image_returns [OF assms(1)] by blast
  have ttl: "get_default (title t) ''AI for MSMEs'' = ttl"
    by (simp add: assms(5) get_default_def)
  have nth: "fs ! (i - 1) = ?path i"
    unfolding fs_def using range by (rule slide_paths_nth)
  have "files (snd r) (?path i) = Some (projr (slide_image e ?shown (get_default (slides t) [] ! (i - 1))
      (if i = length (get_default (slides t) []) then cta_text else []) i))"
    unfolding assms(6) by (rule generate_carousel_written [OF assms(1) range])
  then have stored: "files (snd r) (fs ! (i - 1)) = Some img"
    unfolding img0 nth by simp
  from img0 have img: "slide_image e ?ttl (sl ! (i - 1)) ?cta i = Inr img"
    unfolding assms(2) ttl .
  from result stored img
  have "fst r = Inr (?outdir, fs, archive_name e ?outdir ''zip'')
      \<and> files (snd r) (fs ! (i - 1)) = Some img
      \<and> slide_image e ?ttl (sl ! (i - 1)) ?cta i = Inr img"
    by (simp only: simp_thms)
  then show ?thesis
    by blast
qed

text \<open>
  The three-slide topic titled \<^verbatim>\<open>T\<close>: slide 1 carries \<^verbatim>\<open>T\<close>, slide 2 carries
  \<^verbatim>\<open>Slide 2\<close>.
\<close>

theorem first_slide_title_then_generated_witness:
  "fonts_load demo_env \<and> title demo_topic = Some ''T''
   \<and> (\<exists>img cta. files (snd (generate_carousel demo_env demo_topic demo_world))
             ''output/carousel_2026-11-03/slide_1.png'' = Some img
         \<and> slide_image demo_env ''T'' ''a'' cta 1 = Inr img)
   \<and> (\<exists>img cta. files (snd (generate_carousel demo_env demo_topic demo_world))
             ''output/carousel_2026-11-03/slide_2.png'' = Some img
         \<and> slide_image demo_env ''Slide 2'' ''b'' cta 2 = Inr img)"
proof -
  have len: "(1::nat) \<le> length (get_default (slides demo_topic) [])"
    "(2::nat) \<le> length (get_default (slides demo_topic) [])"
    by (simp_all add: demo_slides)
  have ttl: "title demo_topic = Some ''T''"
    by (simp add: demo_topic_def)
  from first_slide_title_then_generated [OF demo_fonts_load refl _ len(1) ttl refl, of demo_world]
  have first: "\<exists>img cta. files (snd (generate_carousel demo_env demo_topic demo_world))
             ''output/carousel_2026-11-03/slide_1.png'' = Some img
         \<and> slide_image demo_env ''T'' ''a'' cta 1 = Inr img"
    by (auto simp add: demo_result demo_slides)
  from first_slide_title_then_generated [OF demo_fonts_load refl _ len(2) ttl refl, of demo_world]
  have second: "\<exists>img cta. files (snd (generate_carousel demo_env demo_topic demo_world))
             ''output/carousel_2026-11-03/slide_2.png'' = Some img
         \<and> slide_image demo_env ''Slide 2'' ''b'' cta 2 = Inr img"
    by (auto simp add: demo_result demo_slides str_nat_small digit_char_def)
  from first second demo_fonts_load ttl show ?thesis
    by (simp only: simp_thms)
qed

text \<open>
  C4 as stated fails for the long-form caption: for the topic titled \<^verbatim>\<open>T\<close> without a long
  caption, the long-form caption has nothing between its two blank-line separators, not
  the title a second time.
\<close>

theorem long_caption_fallback_counterexample:
  "long_caption demo_topic = None
   \<and> title demo_topic = Some ''T''
   \<and> fst (compose_captions demo_topic) = ''T'' @ newline @ newline @ newline @ newline @ ''#ai #msme''
   \<and> fst (compose_captions demo_topic) \<noteq>
        ''T'' @ newline @ newline @ ''T'' @ newline @ newline @ ''#ai #msme''"
  by (simp add: compose_captions_def demo_topic_def get_default_def newline_def)

text \<open>
  C4, amended. When the short caption is absent, the short-form caption has the topic's
  title (the empty string when the title is absent too) in its place; when the long
  caption is absent, the long-form caption has the empty string in its place, after the
  title that always heads it.
\<close>

theorem caption_fallbacks:
  "(short_caption t = None \<longrightarrow>
      snd (compose_captions t) =
        get_default (title t) [] @ newline @ newline @ join '' '' (get_default (hashtags t) []))
   \<and> (long_caption t = None \<longrightarrow>
      fst (compose_captions t) =
        get_default (title t) [] @ newline @ newline @ newline @ newline
          @ join '' '' (get_default (hashtags t) []))"
  by (simp add: compose_captions_def get_default_def)

text \<open>
  The topic titled \<^verbatim>\<open>T\<close> with neither caption.
\<close>

theorem caption_fallbacks_witness:
  "short_caption demo_topic = None \<and> long_caption demo_topic = None
   \<and> snd (compose_captions demo_topic) = ''T'' @ newline @ newline @ ''#ai #msme''
   \<and> fst (compose_captions demo_topic) = ''T'' @ newline @ newline @ newline @ newline @ ''#ai #msme''"
  using caption_fallbacks [of demo_topic]
  by (simp add: demo_topic_def get_default_def)

text \<open>
  C5. For a non-empty topic list and any date, the selected index is the date's day
  ordinal modulo the number of topics, it lies within the list, the topic selected is the
  one at that index, and two dates with the same ordinal select the same index and topic.
\<close>

theorem topic_index_is_ordinal_mod_count:
  assumes "topics \<noteq> []" and "toordinal d' = toordinal d"
  shows "select_topic d topics =
           Inr (toordinal d mod int (length topics),
                topics ! nat (toordinal d mod int (length topics)))
    \<and> 0 \<le> toordinal d mod int (length topics)
    \<and> toordinal d mod int (length topics) < int (length topics)
    \<and> select_topic d' topics = select_topic d topics"
proof -
  from assms(1) have "0 < int (length topics)"
    by simp
  then have "0 \<le> toordinal d mod int (length topics)"
    and "toordinal d mod int (length topics) < int (length topics)"
    by simp_all
  moreover have "select_topic d' topics = select_topic d topics"
    by (simp add: select_topic_def assms(2))
  ultimately show ?thesis
    using select_topic_nonempty [OF assms(1), of d] by simp
qed

text \<open>
  Two topics on day 739923: index 1, whatever else the date value holds.
\<close>

theorem topic_index_is_ordinal_mod_count_witness:
  "select_topic (today demo_world) [bare_topic, demo_topic] = Inr (1, demo_topic)
   \<and> select_topic \<lparr>toordinal = 739923, isoformat = ''03/11/2026''\<rparr> [bare_topic, demo_topic] =
       select_topic (today demo_world) [bare_topic, demo_topic]"
proof -
  have "[bare_topic, demo_topic] \<noteq> []"
    by simp
  moreover have "toordinal \<lparr>toordinal = 739923, isoformat = ''03/11/2026''\<rparr> = toordinal (today demo_world)"
    by (simp add: demo_world_def)
  ultimately show ?thesis
    using topic_index_is_ordinal_mod_count
      [of "[bare_topic, demo_topic]" "\<lparr>toordinal = 739923, isoformat = ''03/11/2026''\<rparr>" "today demo_world"]
    by (simp add: demo_world_def)
qed

text \<open>
  C6. When the topics file does not exist, \<open>main\<close> raises
  \<^verbatim>\<open>FileNotFoundError\<close>, the process exits with status 1, and no directory, image file
  or archive has been created or changed.
\<close>

theorem missing_topics_file_aborts:
  assumes "topics_json w = Missing"
  shows "fst (main e flag w) = Inl (FileNotFoundError ''topics.json missing.'')
    \<and> dirs (snd (main e flag w)) = dirs w
    \<and> files (snd (main e flag w)) = files w
    \<and> archives (snd (main e flag w)) = archives w
    \<and> fst (script e flag w) = 1
    \<and> dirs (snd (script e flag w)) = dirs w
    \<and> files (snd (script e flag w)) = files w
    \<and> archives (snd (script e flag w)) = archives w"
proof -
  have "main e flag w =
        (Inl (FileNotFoundError ''topics.json missing.''),
         logging (LogError ''topics.json missing in repo root. Create it and commit.'') w)"
    using main_load_failure [of w _ e flag] load_topics_missing [OF assms] by simp
  then show ?thesis
    by (simp add: script_def logging_def)
qed

text \<open>
  The sample world without its topics file.
\<close>

theorem missing_topics_file_aborts_witness:
  "topics_json missing_world = Missing
   \<and> fst (main demo_env False missing_world) = Inl (FileNotFoundError ''topics.json missing.'')
   \<and> fst (script demo_env False missing_world) = 1
   \<and> dirs (snd (script demo_env False missing_world)) = {}
   \<and> files (snd (script demo_env False missing_world)) ''output/carousel_2026-11-03/slide_1.png'' = None"
proof -
  have missing: "topics_json missing_world = Missing"
    by (simp add: missing_world_def)
  from missing_topics_file_aborts [OF missing, of demo_env False] missing show ?thesis
    by (simp add: missing_world_def demo_world_def)
qed

text \<open>
  C7. When email delivery is requested and one of \<^verbatim>\<open>GMAIL_USER\<close>,
  \<^verbatim>\<open>GMAIL_APP_PASSWORD\<close>, \<^verbatim>\<open>RECIPIENT\<close> is unset, the run ends in an exception and exit
  status 1 with no SMTP connection attempted. When the topics were loaded, one was selected
  and the carousel was generated (as it is whenever the candidate fonts load), the
  exception is \<^verbatim>\<open>EnvironmentError("Missing email env vars.")\<close>; and the email step leaves
  the world as it found it but for one error line in the log, so \<open>send_email\<close> has had
  no effect.
\<close>

theorem missing_email_configuration_aborts:
  assumes "environ w ''GMAIL_USER'' = None \<or> environ w ''GMAIL_APP_PASSWORD'' = None
           \<or> environ w ''RECIPIENT'' = None"
  shows "(\<exists>err. fst (main e True w) = Inl err)
    \<and> smtp_log (snd (main e True w)) = smtp_log w
    \<and> fst (script e True w) = 1
    \<and> smtp_log (snd (script e True w)) = smtp_log w
    \<and> (\<forall>ts. topics_json w = Parsed ts \<and> ts \<noteq> [] \<and> fonts_load e \<longrightarrow>
          fst (main e True w) = Inl (EnvironmentError ''Missing email env vars.''))
    \<and> (\<forall>ts res. topics_json w = Parsed ts \<and> ts \<noteq> []
          \<and> fst (generate_carousel e (ts ! nat (toordinal (today w) mod int (length ts))) w) = Inr res
          \<longrightarrow> fst (main e True w) = Inl (EnvironmentError ''Missing email env vars.''))
    \<and> (\<forall>t c fs. \<exists>msg. email_step t c fs w =
          (Inl (EnvironmentError ''Missing email env vars.''), logging (LogError msg) w))"
proof -
  have step: "\<exists>msg. email_step t c fs w' =
          (Inl (EnvironmentError ''Missing email env vars.''), logging (LogError msg) w')"
    if "environ w' = environ w" for t c fs w'
    using assms by (intro email_step_missing) (simp add: that)
  have rendered: "fst (main e True w) = Inl (EnvironmentError ''Missing email env vars.'')
      \<and> smtp_log (snd (main e True w)) = smtp_log w"
    if "topics_json w = Parsed ts" "ts \<noteq> []"
      "fst (generate_carousel e (ts ! nat (toordinal (today w) mod int (length ts))) w) = Inr res"
    for ts res
  proof -
    from main_before_email [OF that(1,2) refl that(3)] obtain c fs w6
      where m: "main e True w = email_step (ts ! nat (toordinal (today w) mod int (length ts))) c fs w6"
        and env: "environ w6 = environ w" and log: "smtp_log w6 = smtp_log w"
      by blast
    from step [OF env] obtain msg
      where "email_step (ts ! nat (toordinal (today w) mod int (length ts))) c fs w6 =
          (Inl (EnvironmentError ''Missing email env vars.''), logging (LogError msg) w6)"
      by blast
    with m log show ?thesis
      by (simp add: logging_fields)
  qed
  have loaded: "fst (main e True w) = Inl (EnvironmentError ''Missing email env vars.'')"
    if "topics_json w = Parsed ts" "ts \<noteq> []" "fonts_load e" for ts
    using rendered [OF that(1,2) generate_carousel_result [OF that(3)]] by simp
  have fails: "(\<exists>err. fst (main e True w) = Inl err) \<and> smtp_log (snd (main e True w)) = smtp_log w"
  proof (cases "topics_json w")
    case Missing
    then show ?thesis
      by (simp add: main_def load_topics_def logging_fields)
  next
    case (Malformed m)
    then show ?thesis
      by (simp add: main_def load_topics_def logging_fields)
  next
    case (Parsed ts)
    show ?thesis
    proof (cases "ts = []")
      case True
      with Parsed show ?thesis
        by (simp add: main_def load_topics_def select_topic_empty)
    next
      case False
      let ?t = "ts ! nat (toordinal (today w) mod int (length ts))"
      show ?thesis
      proof (cases "fst (generate_carousel e ?t w)")
        case (Inl err)
        from main_render_failure [OF Parsed False refl Inl] show ?thesis
          by (simp add: generate_carousel_fields)
      next
        case (Inr res)
        from rendered [OF Parsed False Inr] show ?thesis
          by simp
      qed
    qed
  qed
  then obtain err where err: "fst (main e True w) = Inl err"
    and quiet: "smtp_log (snd (main e True w)) = smtp_log w"
    by blast
  have exit: "fst (script e True w) = 1 \<and> smtp_log (snd (script e True w)) = smtp_log w"
    using err quiet by (cases "main e True w") (simp add: script_def logging_fields)
  from fails exit loaded rendered step [OF refl] show ?thesis
    by blast
qed

text \<open>
  Sender and recipient set, the credential unset.
\<close>

theorem missing_email_configuration_aborts_witness:
  "environ partial_env_world ''GMAIL_APP_PASSWORD'' = None
   \<and> fonts_load demo_env
   \<and> fst (main demo_env True partial_env_world) = Inl (EnvironmentError ''Missing email env vars.'')
   \<and> fst (script demo_env True partial_env_world) = 1
   \<and> smtp_log (snd (script demo_env True partial_env_world)) = []"
proof -
  have unset: "environ partial_env_world ''GMAIL_APP_PASSWORD'' = None"
    by (simp add: partial_env_world_def)
  then have some: "environ partial_env_world ''GMAIL_USER'' = None
      \<or> environ partial_env_world ''GMAIL_APP_PASSWORD'' = None
      \<or> environ partial_env_world ''RECIPIENT'' = None"
    by simp
  have topics: "topics_json partial_env_world = Parsed [bare_topic, demo_topic]
      \<and> [bare_topic, demo_topic] \<noteq> [] \<and> fonts_load demo_env"
    by (simp add: partial_env_world_def demo_world_def demo_fonts_load)
  have log: "smtp_log partial_env_world = []"
    by (simp add: partial_env_world_def demo_world_def)
  note aborts = missing_email_configuration_aborts [OF some, of demo_env]
  from aborts have "\<forall>ts. topics_json partial_env_world = Parsed ts \<and> ts \<noteq> [] \<and> fonts_load demo_env \<longrightarrow>
          fst (main demo_env True partial_env_world) = Inl (EnvironmentError ''Missing email env vars.'')"
    by (elim conjE)
  with topics have "fst (main demo_env True partial_env_world) =
      Inl (EnvironmentError ''Missing email env vars.'')"
    by blast
  moreover from aborts have "fst (script demo_env True partial_env_world) = 1"
    by (elim conjE)
  moreover from aborts log have "smtp_log (snd (script demo_env True partial_env_world)) = []"
    by simp
  ultimately show ?thesis
    using unset demo_fonts_load by (simp only: simp_thms)
qed

text \<open>
  C8. For every point size and every answer of the file system and of the font loader,
  \<open>find_font\<close> returns a font: the first candidate path, in list order, that exists and
  loads at that size, and the built-in default font when there is none.
\<close>

theorem find_font_first_loadable_or_default:
  "find_font e sz =
     (case find (\<lambda>p. path_exists e p \<and> truetype_loads e p sz) candidates of
        Some p \<Rightarrow> FreeTypeFont p sz
      | None \<Rightarrow> DefaultFont)"
  unfolding find_font_def by (rule find_font_loop_find)

text \<open>
  Only the second candidate exists, and it loads at positive sizes only.
\<close>

theorem find_font_first_loadable_or_default_witness:
  "find_font demo_env 56 = FreeTypeFont ''/usr/share/fonts/truetype/dejavu/DejaVuSans.ttf'' 56
   \<and> find_font demo_env 0 = DefaultFont"
  using find_font_first_loadable_or_default [of demo_env 56]
    find_font_first_loadable_or_default [of demo_env 0]
  by (simp add: demo_env_def candidates_def)

text \<open>
  C9. For a topic whose slide list is empty or absent, in any environment,
  \<open>generate_carousel\<close> returns the dated output directory, an empty file list and the
  archive path; it writes no image file, and the directory and its zip archive exist
  afterwards.
\<close>

theorem empty_slide_list_still_archived:
  assumes "slides t = None \<or> slides t = Some []"
    and "r = generate_carousel e t w"
    and "outdir = ''output/carousel_'' @ isoformat (today w)"
  shows "fst r = Inr (outdir, [], archive_name e outdir ''zip'')
    \<and> files (snd r) = files w
    \<and> outdir \<in> dirs (snd r)
    \<and> dirs w \<subseteq> dirs (snd r)
    \<and> (\<exists>a. archives (snd r) (archive_name e outdir ''zip'') = Some a
            \<and> arc_format a = ''zip'' \<and> arc_root a = outdir)"
proof -
  from assms(1) have empty: "[] = get_default (slides t) []"
    by (auto simp add: get_default_def)
  have result: "fst r = Inr (outdir, [], archive_name e outdir ''zip'')"
    unfolding assms(2) generate_carousel_unfold [OF assms(3) empty] by simp
  have "files (snd r) p = files w p" for p
    unfolding assms(2) by (rule generate_carousel_untouched) (simp add: empty [symmetric])
  then have unchanged: "files (snd r) = files w"
    by (rule ext)
  have created: "outdir \<in> dirs (snd r)"
    unfolding assms(2,3) generate_carousel_dirs by (rule makedirs_creates) simp
  have kept: "dirs w \<subseteq> dirs (snd r)"
    by (simp add: assms(2) generate_carousel_dirs makedirs_keeps)
  have archived: "\<exists>a. archives (snd r) (archive_name e outdir ''zip'') = Some a
            \<and> arc_format a = ''zip'' \<and> arc_root a = outdir"
    using result unfolding assms(2,3) by (rule generate_carousel_archived)
  from result unchanged created kept archived show ?thesis
    by (simp only: simp_thms)
qed

text \<open>
  The topic without a slide list.
\<close>

theorem empty_slide_list_still_archived_witness:
  "slides bare_topic = None
   \<and> fst (generate_carousel demo_env bare_topic demo_world) =
       Inr (''output/carousel_2026-11-03'', [], ''output/carousel_2026-11-03.zip'')
   \<and> files (snd (generate_carousel demo_env bare_topic demo_world)) = files demo_world
   \<and> ''output/carousel_2026-11-03'' \<in> dirs (snd (generate_carousel demo_env bare_topic demo_world))"
proof -
  have none: "slides bare_topic = None"
    by (simp add: bare_topic_def)
  then have "slides bare_topic = None \<or> slides bare_topic = Some []"
    by simp
  from empty_slide_list_still_archived [OF this refl refl, of demo_env demo_world] none
  show ?thesis
    by (simp add: demo_world_def demo_env_def)
qed

text \<open>
  C10. When the loaded topic list is empty, \<open>main\<close> raises \<^verbatim>\<open>ZeroDivisionError\<close> at
  the topic selection, before anything is written, and the process exits with status 1;
  topic selection raises that error exactly on the empty list and succeeds exactly on a
  non-empty one.
\<close>

theorem empty_topic_list_raises_zero_division:
  assumes "topics_json w = Parsed []"
  shows "main e flag w = (Inl ZeroDivisionError, w)
    \<and> fst (script e flag w) = 1
    \<and> dirs (snd (script e flag w)) = dirs w
    \<and> files (snd (script e flag w)) = files w
    \<and> (\<forall>d ts. (select_topic d ts = Inl ZeroDivisionError) = (ts = []))
    \<and> (\<forall>d ts. (\<exists>sel. select_topic d ts = Inr sel) = (ts \<noteq> []))"
proof -
  have run: "main e flag w = (Inl ZeroDivisionError, w)"
    by (simp add: main_def load_topics_parsed [OF assms] select_topic_empty)
  have "(select_topic d ts = Inl ZeroDivisionError) = (ts = [])" for d ts
    by (cases "ts = []") (simp_all add: select_topic_empty select_topic_nonempty)
  moreover have "(\<exists>sel. select_topic d ts = Inr sel) = (ts \<noteq> [])" for d ts
    by (cases "ts = []") (simp_all add: select_topic_empty select_topic_nonempty)
  ultimately show ?thesis
    using run by (simp add: script_def logging_def)
qed

text \<open>
  The sample world with an empty topic list.
\<close>

theorem empty_topic_list_raises_zero_division_witness:
  "topics_json empty_world = Parsed []
   \<and> main demo_env True empty_world = (Inl ZeroDivisionError, empty_world)
   \<and> fst (script demo_env True empty_world) = 1
   \<and> select_topic (today empty_world) [] = Inl ZeroDivisionError"
proof -
  have empty: "topics_json empty_world = Parsed []"
    by (simp add: empty_world_def)
  from empty_topic_list_raises_zero_division [OF empty, of demo_env True] empty show ?thesis
    by simp
qed

end
